theory Spec2Isabelle
  imports Main "HOL-Library.Word" "HOL-Library.Code_Target_Nat"
begin

unbundle bit_operations_syntax

section \<open>Machine types\<close>

text \<open>
  A byte is an 8-bit word. Values of type \<open>size_t\<close> (block ids, bit indices, counts) are
  natural numbers: no arithmetic of \<open>block_store.c\<close> comes near the top of the type
  (the largest sum is \<open>255 + 1\<close>), so nothing wraps. \<open>SIZE_MAX\<close> is the largest
  \<open>size_t\<close> of a 64-bit target.
\<close>

type_synonym uint8_t = "8 word"
type_synonym size_t = nat

definition SIZE_MAX :: size_t where
  "SIZE_MAX = 18446744073709551615"

section \<open>The bitmap primitive\<close>

text \<open>
  \<open>block_store.c\<close> includes \<open>bitmap.h\<close> and calls \<open>bitmap_create\<close>,
  \<open>bitmap_set\<close>, \<open>bitmap_reset\<close>, \<open>bitmap_test\<close>, \<open>bitmap_ffz\<close>,
  \<open>bitmap_export\<close> and \<open>bitmap_import\<close>; their code is not among the sources. The
  spec describes the primitive as a fixed-size bit vector supporting set, reset, test,
  find-first-zero, export-to-bytes and import-from-bytes. It is modelled as the byte array
  behind the bit vector: bit \<open>k\<close> lives in byte \<open>k div 8\<close> at position \<open>k mod 8\<close>.
  Memory allocation is taken to succeed, so a bitmap pointer is never null.
\<close>

text \<open>Modelled from the spec: the type \<open>bitmap_t\<close> of \<open>bitmap.h\<close>, a fixed-size bit
  vector with its backing bytes.\<close>

record bitmap_t =
  data :: "uint8_t list"
  bit_count :: nat

text \<open>Modelled from the spec: the byte mask of one bit of \<open>bitmap.h\<close>.\<close>

definition bit_mask :: "size_t \<Rightarrow> uint8_t" where
  "bit_mask b = push_bit (b mod 8) 1"

text \<open>Modelled from the spec: \<open>bitmap_create\<close> of \<open>bitmap.h\<close>, a bit vector of
  \<open>n_bits\<close> bits, all clear.\<close>

definition bitmap_create :: "size_t \<Rightarrow> bitmap_t" where
  "bitmap_create n_bits = \<lparr>data = replicate ((n_bits + 7) div 8) 0, bit_count = n_bits\<rparr>"

text \<open>Modelled from the spec: \<open>bitmap_set\<close> of \<open>bitmap.h\<close>, sets one bit.\<close>

definition bitmap_set :: "bitmap_t \<Rightarrow> size_t \<Rightarrow> bitmap_t" where
  "bitmap_set bm b = bm\<lparr>data := (data bm)[b div 8 := (data bm ! (b div 8)) OR bit_mask b]\<rparr>"

text \<open>Modelled from the spec: \<open>bitmap_reset\<close> of \<open>bitmap.h\<close>, clears one bit.\<close>

definition bitmap_reset :: "bitmap_t \<Rightarrow> size_t \<Rightarrow> bitmap_t" where
  "bitmap_reset bm b =
     bm\<lparr>data := (data bm)[b div 8 := (data bm ! (b div 8)) AND NOT (bit_mask b)]\<rparr>"

text \<open>Modelled from the spec: \<open>bitmap_test\<close> of \<open>bitmap.h\<close>, reads one bit.\<close>

definition bitmap_test :: "bitmap_t \<Rightarrow> size_t \<Rightarrow> bool" where
  "bitmap_test bm b \<longleftrightarrow> (data bm ! (b div 8)) AND bit_mask b \<noteq> 0"

text \<open>Modelled from the spec: the scan of \<open>bitmap_ffz\<close> of \<open>bitmap.h\<close>, which walks
  the bits upwards while they are set.\<close>

function ffz_scan :: "bitmap_t \<Rightarrow> size_t \<Rightarrow> size_t" where
  "ffz_scan bm r = (if r < bit_count bm \<and> bitmap_test bm r then ffz_scan bm (Suc r) else r)"
  by pat_completeness auto
termination
  by (relation "measure (\<lambda>(bm, r). bit_count bm - r)") auto

text \<open>Modelled from the spec: \<open>bitmap_ffz\<close> of \<open>bitmap.h\<close>, find-first-zero: the lowest
  clear bit, or \<open>SIZE_MAX\<close> when every bit is set.\<close>

definition bitmap_ffz :: "bitmap_t \<Rightarrow> size_t" where
  "bitmap_ffz bm = (let r = ffz_scan bm 0 in if r = bit_count bm then SIZE_MAX else r)"

text \<open>Modelled from the spec: \<open>bitmap_export\<close> of \<open>bitmap.h\<close>, the backing bytes.\<close>

definition bitmap_export :: "bitmap_t \<Rightarrow> uint8_t list" where
  "bitmap_export bm = data bm"

text \<open>Modelled from the spec: \<open>bitmap_import\<close> of \<open>bitmap.h\<close>, a new bit vector of
  \<open>n_bits\<close> bits whose backing bytes are copied from the buffer.\<close>

definition bitmap_import :: "size_t \<Rightarrow> uint8_t list \<Rightarrow> bitmap_t" where
  "bitmap_import n_bits buffer =
     \<lparr>data = take ((n_bits + 7) div 8) buffer, bit_count = n_bits\<rparr>"

section \<open>The block store\<close>

text \<open>
  \<open>struct block_store\<close> is an array of 256 bitmap pointers; each bitmap has 2048 bits, that
  is 256 bytes. An argument of type \<open>block_store_t *\<close> is an \<open>option\<close>: \<open>None\<close> is the null
  pointer. A function that writes through the pointer returns the device it leaves behind.
  A caller's buffer (\<open>void *\<close>) is the list of bytes at the pointer, \<open>None\<close> when null.
\<close>

record block_store_t =
  bmp :: "bitmap_t list"

definition block_store_wf :: "block_store_t \<Rightarrow> bool" where
  "block_store_wf bs \<longleftrightarrow>
     length (bmp bs) = 256 \<and>
     list_all (\<lambda>b. bit_count b = 2048 \<and> length (data b) = 256) (bmp bs)"

text \<open>Occupancy bit \<open>j\<close> of a device and the content of slot \<open>j\<close>, as the code reads them:
  the occupancy bits are the bits of \<open>bmp[0]\<close>.\<close>

definition occupancy :: "block_store_t \<Rightarrow> size_t \<Rightarrow> bool" where
  "occupancy bs j \<longleftrightarrow> bitmap_test (bmp bs ! 0) j"

definition slot_content :: "block_store_t \<Rightarrow> size_t \<Rightarrow> uint8_t list" where
  "slot_content bs j = bitmap_export (bmp bs ! j)"

text \<open>\<open>block_store_create\<close> returns a pointer to the new device; with allocation taken
  to succeed it is never null, and the model returns the device itself.\<close>

definition block_store_create :: "block_store_t" where
  "block_store_create =
     (let bs = \<lparr>bmp = map (\<lambda>i. bitmap_create 2048) [0..<256]\<rparr>
      in bs\<lparr>bmp := (bmp bs)[0 := bitmap_set (bmp bs ! 0) 0]\<rparr>)"

definition block_store_allocate :: "block_store_t option \<Rightarrow> size_t \<times> block_store_t option" where
  "block_store_allocate dev =
     (case dev of
        None \<Rightarrow> (SIZE_MAX, None)
      | Some bs \<Rightarrow>
          (let i = bitmap_ffz (bmp bs ! 0) in
           if i = SIZE_MAX \<or> i \<ge> 256 then (SIZE_MAX, Some bs)
           else (i, Some (bs\<lparr>bmp := (bmp bs)[0 := bitmap_set (bmp bs ! 0) i]\<rparr>))))"

definition block_store_request ::
  "block_store_t option \<Rightarrow> size_t \<Rightarrow> bool \<times> block_store_t option" where
  "block_store_request dev block_id =
     (case dev of
        None \<Rightarrow> (False, None)
      | Some bs \<Rightarrow>
          if block_id > 0 \<and> block_id < 256 \<and> \<not> bitmap_test (bmp bs ! 0) block_id
          then (True, Some (bs\<lparr>bmp := (bmp bs)[0 := bitmap_set (bmp bs ! 0) block_id]\<rparr>))
          else (False, Some bs))"

definition block_store_release :: "block_store_t option \<Rightarrow> size_t \<Rightarrow> block_store_t option" where
  "block_store_release dev block_id =
     (case dev of
        None \<Rightarrow> None
      | Some bs \<Rightarrow>
          if block_id > 0 \<and> block_id < 256 \<and> bitmap_test (bmp bs ! 0) block_id
          then Some (bs\<lparr>bmp := (bmp bs)[0 := bitmap_reset (bmp bs ! 0) block_id]\<rparr>)
          else Some bs)"

function used_loop :: "block_store_t \<Rightarrow> size_t \<Rightarrow> size_t \<Rightarrow> size_t" where
  "used_loop bs i ub =
     (if i < 256
      then used_loop bs (Suc i) (if bitmap_test (bmp bs ! 0) i then Suc ub else ub)
      else ub)"
  by pat_completeness auto
termination
  by (relation "measure (\<lambda>(bs, i, ub). 256 - i)") auto

definition block_store_get_used_blocks :: "block_store_t option \<Rightarrow> size_t" where
  "block_store_get_used_blocks dev =
     (case dev of
        None \<Rightarrow> SIZE_MAX
      | Some bs \<Rightarrow> (let ub = used_loop bs 1 0 in if ub \<ge> 256 then SIZE_MAX else ub))"

definition block_store_get_free_blocks :: "block_store_t option \<Rightarrow> size_t" where
  "block_store_get_free_blocks dev =
     (let ub = block_store_get_used_blocks dev in
      if ub = SIZE_MAX then SIZE_MAX else 255 - ub)"

definition block_store_get_total_blocks :: size_t where
  "block_store_get_total_blocks = 255"

text \<open>
  \<open>block_store_read\<close> indexes \<open>bmp\<close> with the caller's id unchecked. An id of 256 or more
  reads past the array, which C leaves undefined: the model returns the fault
  \<open>Out_Of_Bounds\<close> there instead of a value. Otherwise it returns the byte count and the
  buffer after the copy (\<open>memcpy\<close> of 256 bytes over the buffer's first 256).
\<close>

datatype fault = Out_Of_Bounds

definition block_store_read ::
  "block_store_t option \<Rightarrow> size_t \<Rightarrow> uint8_t list option \<Rightarrow> fault + (size_t \<times> uint8_t list option)" where
  "block_store_read dev block_id buffer =
     (case (dev, buffer) of
        (Some bs, Some buf) \<Rightarrow>
          if block_id < 256
          then Inr (256, Some (take 256 (bitmap_export (bmp bs ! block_id)) @ drop 256 buf))
          else Inl Out_Of_Bounds
      | _ \<Rightarrow> Inr (0, buffer))"

text \<open>
  \<open>block_store_write\<close> destroys the bitmap of the slot and imports a new one from the
  buffer: \<open>bitmap_import\<close> copies the 256 bytes at the pointer. The import is taken to
  succeed (see above), so the test of its result for null never returns 0.
\<close>

definition block_store_write ::
  "block_store_t option \<Rightarrow> size_t \<Rightarrow> uint8_t list option \<Rightarrow> size_t \<times> block_store_t option" where
  "block_store_write dev block_id buffer =
     (case (dev, buffer) of
        (Some bs, Some buf) \<Rightarrow>
          if block_id \<ge> 256 then (0, dev)
          else (256, Some (bs\<lparr>bmp := (bmp bs)[block_id := bitmap_import 2048 buf]\<rparr>))
      | _ \<Rightarrow> (0, dev))"

section \<open>Persistence\<close>

text \<open>
  A file system maps a path to the bytes of the file there. The system calls \<open>open\<close>,
  \<open>close\<close>, \<open>read\<close> and \<open>write\<close> can fail for reasons outside the program; which of
  them do is the environment's choice, a predicate on the calls of one run (\<open>True\<close>: the
  call succeeds), each kind numbered in the order the function makes its calls. Opening a
  file for reading also fails when no file is there. A \<open>write\<close> that succeeds appends all
  256 bytes; a \<open>read\<close> that succeeds returns the next bytes of the file, at most 256.
\<close>

type_synonym filesystem = "string \<Rightarrow> uint8_t list option"

datatype syscall = Sys_open nat | Sys_close nat | Sys_read nat | Sys_write nat

type_synonym environment = "syscall \<Rightarrow> bool"

text \<open>The loop of \<open>block_store_serialize\<close>: the file written so far, the counter and the
  byte count; the flag says whether every \<open>write\<close> succeeded.\<close>

function serialize_loop ::
  "environment \<Rightarrow> block_store_t \<Rightarrow> uint8_t list \<Rightarrow> nat \<Rightarrow> size_t \<Rightarrow> bool \<times> size_t \<times> uint8_t list" where
  "serialize_loop env bs f i sz =
     (if i < 256
      then (if \<not> env (Sys_write i) then (False, sz, f)
            else serialize_loop env bs (f @ take 256 (bitmap_export (bmp bs ! i))) (Suc i) (sz + 256))
      else (True, sz, f))"
  by pat_completeness auto
termination
  by (relation "measure (\<lambda>(env, bs, f, i, sz). 256 - i)") auto

definition block_store_serialize ::
  "environment \<Rightarrow> block_store_t option \<Rightarrow> string option \<Rightarrow> filesystem \<Rightarrow> size_t \<times> filesystem" where
  "block_store_serialize env dev filename fs =
     (case (dev, filename) of
        (Some bs, Some name) \<Rightarrow>
          if \<not> env (Sys_open 0) then (0, fs)
          else
            (let fs1 = fs(name \<mapsto> []) in
             if \<not> env (Sys_close 0) then (0, fs1)
             else if \<not> env (Sys_open 1) then (0, fs1)
             else
               (case serialize_loop env bs [] 0 0 of
                  (ok, sz, f) \<Rightarrow>
                    (let fs2 = fs1(name \<mapsto> f) in
                     if \<not> ok then (0, fs2)
                     else if \<not> env (Sys_close 1) then (0, fs2)
                     else (sz, fs2))))
      | _ \<Rightarrow> (0, fs))"

text \<open>
  The loop of \<open>block_store_deserialize\<close>. Its buffer is an array of 256 bytes declared
  inside the loop body and never initialised: \<open>stack i k\<close> is byte \<open>k\<close> of the buffer as
  iteration \<open>i\<close> finds it. A \<open>read\<close> overwrites as many bytes as the file still has; the
  code tests the result of \<open>read\<close> only for an error, so a short read goes on with the
  rest of the buffer as it was.
\<close>

function deserialize_loop ::
  "environment \<Rightarrow> (nat \<Rightarrow> nat \<Rightarrow> uint8_t) \<Rightarrow> uint8_t list \<Rightarrow> nat \<Rightarrow> nat \<Rightarrow> block_store_t \<Rightarrow>
   block_store_t option" where
  "deserialize_loop env stack f i off bs =
     (if i < 256
      then (if \<not> env (Sys_read i) then None
            else
              (let chunk = take 256 (drop off f);
                   buffer = chunk @ map (stack i) [length chunk..<256]
               in (case block_store_write (Some bs) i (Some buffer) of
                     (n, Some bs') \<Rightarrow>
                       if n \<noteq> 256 then None
                       else deserialize_loop env stack f (Suc i) (off + length chunk) bs'
                   | (n, None) \<Rightarrow> None)))
      else Some bs)"
  by pat_completeness auto
termination
  by (relation "measure (\<lambda>(env, stack, f, i, off, bs). 256 - i)") auto

definition block_store_deserialize ::
  "environment \<Rightarrow> (nat \<Rightarrow> nat \<Rightarrow> uint8_t) \<Rightarrow> string option \<Rightarrow> filesystem \<Rightarrow> block_store_t option" where
  "block_store_deserialize env stack filename fs =
     (case filename of
        None \<Rightarrow> None
      | Some name \<Rightarrow>
          (case fs name of
             None \<Rightarrow> None
           | Some f \<Rightarrow>
               if \<not> env (Sys_open 0) then None
               else
                 (case deserialize_loop env stack f 0 0 block_store_create of
                    None \<Rightarrow> None
                  | Some bs \<Rightarrow> if \<not> env (Sys_close 0) then None else Some bs)))"

section \<open>Runs of calls\<close>

text \<open>\<open>allocate_n n\<close> calls \<open>block_store_allocate\<close> \<open>n\<close> times in a row on the same
  device, as the loop of the test \<open>over_allocate\<close> does, and collects the ids returned.\<close>

fun allocate_n :: "nat \<Rightarrow> block_store_t option \<Rightarrow> size_t list \<times> block_store_t option" where
  "allocate_n 0 dev = ([], dev)"
| "allocate_n (Suc n) dev =
     (case block_store_allocate dev of
        (i, dev') \<Rightarrow> (case allocate_n n dev' of (ids, dev'') \<Rightarrow> (i # ids, dev'')))"

text \<open>
  A caller's calls on one device, in order. \<open>run_operations\<close> starts from the fresh device
  and hands each call the device the call before left behind. A \<open>read\<close> does not write
  to the device, so it leaves the device as it is.
\<close>

datatype operation =
    Allocate
  | Request size_t
  | Release size_t
  | Read size_t "uint8_t list"
  | Write size_t "uint8_t list"

fun apply_operation :: "block_store_t option \<Rightarrow> operation \<Rightarrow> block_store_t option" where
  "apply_operation dev Allocate = snd (block_store_allocate dev)"
| "apply_operation dev (Request block_id) = snd (block_store_request dev block_id)"
| "apply_operation dev (Release block_id) = block_store_release dev block_id"
| "apply_operation dev (Read block_id buffer) = dev"
| "apply_operation dev (Write block_id buffer) = snd (block_store_write dev block_id (Some buffer))"

definition run_operations :: "operation list \<Rightarrow> block_store_t option" where
  "run_operations ops = foldl apply_operation (Some block_store_create) ops"

text \<open>A call keeps the caller's contract when its buffer has 256 bytes and, for a \<open>read\<close>,
  its id is below 256; it writes the free block map when it is a \<open>write\<close> to slot 0.\<close>

fun valid_operation :: "operation \<Rightarrow> bool" where
  "valid_operation (Read block_id buffer) \<longleftrightarrow> block_id < 256 \<and> length buffer = 256"
| "valid_operation (Write block_id buffer) \<longleftrightarrow> length buffer = 256"
| "valid_operation _ \<longleftrightarrow> True"

fun writes_map :: "operation \<Rightarrow> bool" where
  "writes_map (Write block_id buffer) \<longleftrightarrow> block_id = 0"
| "writes_map _ \<longleftrightarrow> False"

text \<open>The environment in which no system call fails, and a stack of zero bytes.\<close>

definition no_failure :: environment where
  "no_failure c \<longleftrightarrow> True"

definition zero_stack :: "nat \<Rightarrow> nat \<Rightarrow> uint8_t" where
  "zero_stack i k = 0"

text \<open>The loops are unfolded one step at a time, by hand.\<close>

declare ffz_scan.simps [simp del] used_loop.simps [simp del]
  serialize_loop.simps [simp del] deserialize_loop.simps [simp del]

section \<open>Properties of the bitmap primitive\<close>

lemma bit_mask_test: "w AND bit_mask b \<noteq> 0 \<longleftrightarrow> bit w (b mod 8)"
  by (simp add: bit_mask_def and_exp_eq_0_iff_not_bit)

lemma bitmap_test_bit: "bitmap_test bm b \<longleftrightarrow> bit (data bm ! (b div 8)) (b mod 8)"
  by (simp add: bitmap_test_def bit_mask_test)

lemma div_mod_eq_imp: "(b::nat) div 8 = c div 8 \<Longrightarrow> b mod 8 = c mod 8 \<Longrightarrow> b = c"
  by (metis div_mult_mod_eq)

lemma bitmap_test_set:
  assumes "b div 8 < length (data bm)"
  shows "bitmap_test (bitmap_set bm b) c \<longleftrightarrow> c = b \<or> bitmap_test bm c"
proof (cases "c div 8 = b div 8")
  case True
  have m: "b mod 8 < 8" by simp
  have "bit (data bm ! (b div 8) OR bit_mask b) (c mod 8) \<longleftrightarrow>
        bit (data bm ! (b div 8)) (c mod 8) \<or> c mod 8 = b mod 8"
    using m by (auto simp add: bit_mask_def bit_or_iff bit_exp_iff)
  with True assms show ?thesis
    by (auto simp add: bitmap_test_bit bitmap_set_def dest: div_mod_eq_imp)
next
  case False
  then show ?thesis
    by (auto simp add: bitmap_test_bit bitmap_set_def)
qed

lemma bitmap_test_reset:
  assumes "b div 8 < length (data bm)"
  shows "bitmap_test (bitmap_reset bm b) c \<longleftrightarrow> c \<noteq> b \<and> bitmap_test bm c"
proof (cases "c div 8 = b div 8")
  case True
  have m: "b mod 8 < 8" by simp
  have "bit (data bm ! (b div 8) AND NOT (bit_mask b)) (c mod 8) \<longleftrightarrow>
        bit (data bm ! (b div 8)) (c mod 8) \<and> c mod 8 \<noteq> b mod 8"
    using m by (auto simp add: bit_mask_def bit_and_iff bit_not_iff bit_exp_iff)
  with True assms show ?thesis
    by (auto simp add: bitmap_test_bit bitmap_reset_def dest: div_mod_eq_imp)
next
  case False
  then show ?thesis
    by (auto simp add: bitmap_test_bit bitmap_reset_def)
qed

lemma ffz_scan_ge: "r \<le> ffz_scan bm r"
proof (induction bm r rule: ffz_scan.induct)
  case (1 bm r)
  show ?case
  proof (cases "r < bit_count bm \<and> bitmap_test bm r")
    case True
    with 1 have "Suc r \<le> ffz_scan bm (Suc r)" by simp
    with True show ?thesis by (subst ffz_scan.simps) simp
  next
    case False
    then show ?thesis by (subst ffz_scan.simps) auto
  qed
qed

lemma ffz_scan_le: "r \<le> bit_count bm \<Longrightarrow> ffz_scan bm r \<le> bit_count bm"
proof (induction bm r rule: ffz_scan.induct)
  case (1 bm r)
  show ?case
  proof (cases "r < bit_count bm \<and> bitmap_test bm r")
    case True
    with 1 have "ffz_scan bm (Suc r) \<le> bit_count bm" by simp
    with True show ?thesis by (subst ffz_scan.simps) simp
  next
    case False
    with 1 show ?thesis by (subst ffz_scan.simps) auto
  qed
qed

lemma ffz_scan_below: "r \<le> k \<Longrightarrow> k < ffz_scan bm r \<Longrightarrow> bitmap_test bm k"
proof (induction bm r rule: ffz_scan.induct)
  case (1 bm r)
  show ?case
  proof (cases "r < bit_count bm \<and> bitmap_test bm r")
    case True
    then have eq: "ffz_scan bm r = ffz_scan bm (Suc r)" by (subst ffz_scan.simps) simp
    show ?thesis
    proof (cases "k = r")
      case True
      with \<open>r < bit_count bm \<and> bitmap_test bm r\<close> show ?thesis by simp
    next
      case False
      with 1 True eq show ?thesis by simp
    qed
  next
    case False
    then have "ffz_scan bm r = r" by (subst ffz_scan.simps) auto
    with 1 show ?thesis by simp
  qed
qed

lemma ffz_scan_clear: "ffz_scan bm r < bit_count bm \<Longrightarrow> \<not> bitmap_test bm (ffz_scan bm r)"
proof (induction bm r rule: ffz_scan.induct)
  case (1 bm r)
  show ?case
  proof (cases "r < bit_count bm \<and> bitmap_test bm r")
    case True
    then have eq: "ffz_scan bm r = ffz_scan bm (Suc r)" by (subst ffz_scan.simps) simp
    with 1 True show ?thesis by simp
  next
    case False
    then have "ffz_scan bm r = r" by (subst ffz_scan.simps) auto
    with 1 False show ?thesis by simp
  qed
qed


section \<open>Well-formed devices and the fresh device\<close>

lemma wf_slot:
  assumes "block_store_wf bs" "j < 256"
  shows "length (data (bmp bs ! j)) = 256" and "bit_count (bmp bs ! j) = 2048"
  using assms by (simp_all add: block_store_wf_def list_all_length)

lemma wf_update:
  assumes "block_store_wf bs" "bit_count b = 2048" "length (data b) = 256"
  shows "block_store_wf (bs\<lparr>bmp := (bmp bs)[j := b]\<rparr>)"
proof -
  have "set ((bmp bs)[j := b]) \<subseteq> insert b (set (bmp bs))"
    by (rule set_update_subset_insert)
  with assms show ?thesis
    by (auto simp add: block_store_wf_def list_all_iff)
qed

lemma bitmap_set_shape:
  "length (data (bitmap_set bm b)) = length (data bm)" "bit_count (bitmap_set bm b) = bit_count bm"
  by (simp_all add: bitmap_set_def)

lemma bitmap_reset_shape:
  "length (data (bitmap_reset bm b)) = length (data bm)" "bit_count (bitmap_reset bm b) = bit_count bm"
  by (simp_all add: bitmap_reset_def)

lemma bitmap_create_test: "b < n_bits \<Longrightarrow> \<not> bitmap_test (bitmap_create n_bits) b"
  by (simp add: bitmap_test_def bitmap_create_def)

lemma create_bmp0: "bmp block_store_create ! 0 = bitmap_set (bitmap_create 2048) 0"
  by (simp add: block_store_create_def Let_def)

lemma create_bmp_pos: "0 < j \<Longrightarrow> j < 256 \<Longrightarrow> bmp block_store_create ! j = bitmap_create 2048"
  by (simp add: block_store_create_def Let_def)

lemma create_wf: "block_store_wf block_store_create"
  by (auto simp add: block_store_wf_def block_store_create_def Let_def list_all_length
      nth_list_update bitmap_set_shape bitmap_create_def)

lemma occupancy_create: "j < 2048 \<Longrightarrow> occupancy block_store_create j \<longleftrightarrow> j = 0"
proof -
  assume j: "j < 2048"
  have "(0::nat) div 8 < length (data (bitmap_create 2048))"
    by (simp add: bitmap_create_def)
  then have "bitmap_test (bitmap_set (bitmap_create 2048) 0) j \<longleftrightarrow>
      j = 0 \<or> bitmap_test (bitmap_create 2048) j"
    by (rule bitmap_test_set)
  with j show ?thesis
    by (simp add: occupancy_def create_bmp0 bitmap_create_test)
qed

section \<open>Null devices\<close>

text \<open>
  Claim C8. Every operation called with a null device returns its failure sentinel and
  changes nothing: \<open>allocate\<close>, \<open>used_count\<close> and \<open>free_count\<close> return \<open>SIZE_MAX\<close>,
  \<open>request\<close> returns false, \<open>release\<close> does nothing, \<open>read\<close>, \<open>write\<close> and
  \<open>serialize\<close> return 0; the device stays null, the caller's buffer and the file system
  are as they were.
\<close>

theorem null_device_sentinels:
  "block_store_allocate None = (SIZE_MAX, None) \<and>
   block_store_get_used_blocks None = SIZE_MAX \<and>
   block_store_get_free_blocks None = SIZE_MAX \<and>
   block_store_request None block_id = (False, None) \<and>
   block_store_release None block_id = None \<and>
   block_store_read None block_id buffer = Inr (0, buffer) \<and>
   block_store_write None block_id buffer = (0, None) \<and>
   block_store_serialize env None filename fs = (0, fs)"
  by (simp add: block_store_allocate_def block_store_get_used_blocks_def
      block_store_get_free_blocks_def block_store_request_def block_store_release_def
      block_store_read_def block_store_write_def block_store_serialize_def)

section \<open>Raw block input and output\<close>

text \<open>
  Claim C1. For every block id below 256 and every 256-byte buffer \<open>X\<close>, on a non-null
  device, \<open>write\<close> returns 256 and a following \<open>read\<close> of the same id into a non-null
  256-byte buffer \<open>Y\<close> returns 256 and leaves \<open>X\<close> in \<open>Y\<close>, byte for byte. Nothing is
  assumed about the occupancy bit of the id.
\<close>

theorem write_then_read_roundtrip:
  assumes "block_store_wf bs" and "block_id < 256" and "length X = 256" and "length Y = 256"
  shows "fst (block_store_write (Some bs) block_id (Some X)) = 256 \<and>
         block_store_read (snd (block_store_write (Some bs) block_id (Some X))) block_id (Some Y)
           = Inr (256, Some X)"
proof -
  have len: "length (bmp bs) = 256"
    using assms(1) by (simp add: block_store_wf_def)
  show ?thesis
    using assms(2-4) len
    by (simp add: block_store_write_def block_store_read_def bitmap_import_def bitmap_export_def)
qed

text \<open>An instance with the bit clear (id 100 of the fresh device) and one with the bit set
  (id 0).\<close>

theorem write_then_read_roundtrip_witness:
  "block_store_wf block_store_create \<and> (100::nat) < 256 \<and>
   length (replicate 256 (126::uint8_t)) = 256 \<and> length (replicate 256 (0::uint8_t)) = 256 \<and>
   \<not> occupancy block_store_create 100 \<and>
   fst (block_store_write (Some block_store_create) 100 (Some (replicate 256 126))) = 256 \<and>
   block_store_read (snd (block_store_write (Some block_store_create) 100 (Some (replicate 256 126))))
     100 (Some (replicate 256 0)) = Inr (256, Some (replicate 256 126)) \<and>
   occupancy block_store_create 0 \<and>
   block_store_read (snd (block_store_write (Some block_store_create) 0 (Some (replicate 256 126))))
     0 (Some (replicate 256 0)) = Inr (256, Some (replicate 256 126))"
  using write_then_read_roundtrip [OF create_wf, of 100 "replicate 256 126" "replicate 256 0"]
    write_then_read_roundtrip [OF create_wf, of 0 "replicate 256 126" "replicate 256 0"]
    create_wf occupancy_create [of 100] occupancy_create [of 0]
  by simp

text \<open>
  Claim C9. \<open>read\<close> returns 0 when the device or the buffer is null, and then leaves the
  buffer alone. With both present and an id below 256 it copies the 256 bytes of the slot
  over the buffer and returns 256. It never compares the id with 256: with both present
  and an id of 256 or more it indexes the array of 256 slots out of bounds.
\<close>

theorem read_result:
  "block_store_read None block_id buffer = Inr (0, buffer) \<and>
   block_store_read dev block_id None = Inr (0, None) \<and>
   (block_store_wf bs \<and> block_id < 256 \<longrightarrow>
      block_store_read (Some bs) block_id (Some buf)
        = Inr (256, Some (slot_content bs block_id @ drop 256 buf)) \<and>
      length (slot_content bs block_id) = 256) \<and>
   (256 \<le> block_id \<longrightarrow> block_store_read (Some bs) block_id (Some buf) = Inl Out_Of_Bounds)"
proof -
  have "length (slot_content bs block_id) = 256" if "block_store_wf bs" "block_id < 256"
    using wf_slot(1) [OF that] by (simp add: slot_content_def bitmap_export_def)
  then show ?thesis
    by (cases dev) (auto simp add: block_store_read_def slot_content_def)
qed

theorem read_result_witness:
  "block_store_wf block_store_create \<and> (7::nat) < 256 \<and>
   block_store_read (Some block_store_create) 7 (Some (replicate 256 1))
     = Inr (256, Some (replicate 256 0)) \<and>
   (256::nat) \<le> 256 \<and>
   block_store_read (Some block_store_create) 256 (Some (replicate 256 1)) = Inl Out_Of_Bounds"
proof -
  have "slot_content block_store_create 7 = replicate 256 0"
    by (simp add: slot_content_def create_bmp_pos bitmap_export_def bitmap_create_def)
  then show ?thesis
    using read_result [where block_id = 7 and bs = block_store_create and buf = "replicate 256 1"]
      read_result [where block_id = 256 and bs = block_store_create and buf = "replicate 256 1"]
      create_wf
    by simp
qed

section \<open>Requesting a block\<close>

lemma set_bit_frame:
  assumes "block_store_wf bs" and "i < 2048"
  shows "block_store_wf (bs\<lparr>bmp := (bmp bs)[0 := bitmap_set (bmp bs ! 0) i]\<rparr>)"
    and "occupancy (bs\<lparr>bmp := (bmp bs)[0 := bitmap_set (bmp bs ! 0) i]\<rparr>) j
           \<longleftrightarrow> j = i \<or> occupancy bs j"
    and "0 < j \<Longrightarrow> slot_content (bs\<lparr>bmp := (bmp bs)[0 := bitmap_set (bmp bs ! 0) i]\<rparr>) j
           = slot_content bs j"
proof -
  have len: "length (bmp bs) = 256"
    using assms(1) by (simp add: block_store_wf_def)
  have d: "length (data (bmp bs ! 0)) = 256" and c: "bit_count (bmp bs ! 0) = 2048"
    using wf_slot [OF assms(1), of 0] by simp_all
  show "block_store_wf (bs\<lparr>bmp := (bmp bs)[0 := bitmap_set (bmp bs ! 0) i]\<rparr>)"
    using assms(1) c d by (intro wf_update) (simp_all add: bitmap_set_shape)
  have "i div 8 < length (data (bmp bs ! 0))"
    using assms(2) d by simp
  then show "occupancy (bs\<lparr>bmp := (bmp bs)[0 := bitmap_set (bmp bs ! 0) i]\<rparr>) j
      \<longleftrightarrow> j = i \<or> occupancy bs j"
    using len by (simp add: occupancy_def bitmap_test_set)
  show "slot_content (bs\<lparr>bmp := (bmp bs)[0 := bitmap_set (bmp bs ! 0) i]\<rparr>) j
      = slot_content bs j" if "0 < j"
    using that by (simp add: slot_content_def)
qed

text \<open>
  Claim C7. \<open>request\<close> returns true exactly when the device is not null, the id is above
  0 and below 256, and the id's occupancy bit is clear; it then sets that bit in the
  caller's device and changes nothing else: the device stays well formed, every other
  occupancy bit and the content of every slot above 0 are as they were (slot 0 holds the
  occupancy bits). In every other case (id 0, an id of 256 or more, a bit already set, a
  null device) it returns false and leaves the device as it was.
\<close>

theorem request_sets_clear_bit_only:
  assumes "block_store_wf bs"
  shows "block_store_request None block_id = (False, None) \<and>
         (fst (block_store_request (Some bs) block_id) \<longleftrightarrow>
            0 < block_id \<and> block_id < 256 \<and> \<not> occupancy bs block_id) \<and>
         (fst (block_store_request (Some bs) block_id) \<longrightarrow>
            (\<exists>bs'. snd (block_store_request (Some bs) block_id) = Some bs' \<and>
                   block_store_wf bs' \<and>
                   occupancy bs' block_id \<and>
                   (\<forall>j. j \<noteq> block_id \<longrightarrow> occupancy bs' j = occupancy bs j) \<and>
                   (\<forall>j. 0 < j \<longrightarrow> slot_content bs' j = slot_content bs j))) \<and>
         (\<not> fst (block_store_request (Some bs) block_id) \<longrightarrow>
            snd (block_store_request (Some bs) block_id) = Some bs)"
proof -
  let ?bs' = "bs\<lparr>bmp := (bmp bs)[0 := bitmap_set (bmp bs ! 0) block_id]\<rparr>"
  have frame: "block_store_wf ?bs' \<and> occupancy ?bs' block_id \<and>
      (\<forall>j. j \<noteq> block_id \<longrightarrow> occupancy ?bs' j = occupancy bs j) \<and>
      (\<forall>j. 0 < j \<longrightarrow> slot_content ?bs' j = slot_content bs j)"
    if "block_id < 256"
  proof -
    have i: "block_id < 2048" using that by simp
    show ?thesis
      using set_bit_frame(1) [OF assms i] set_bit_frame(2) [OF assms i]
        set_bit_frame(3) [OF assms i]
      by simp
  qed
  show ?thesis
  proof (cases "0 < block_id \<and> block_id < 256 \<and> \<not> occupancy bs block_id")
    case True
    then have "block_store_request (Some bs) block_id = (True, Some ?bs')"
      by (simp add: block_store_request_def occupancy_def)
    with True frame show ?thesis
      by (simp add: block_store_request_def)
  next
    case False
    then have "block_store_request (Some bs) block_id = (False, Some bs)"
      by (auto simp add: block_store_request_def occupancy_def)
    with False show ?thesis
      by (simp add: block_store_request_def)
  qed
qed

text \<open>On the fresh device: block 100 is granted, with bit 0 still set, bit 50 still clear
  and slot 7 untouched, and a second request of block 100 is refused; ids 0 and 500 are
  refused and leave the device as it was.\<close>

theorem request_sets_clear_bit_only_witness:
  "block_store_wf block_store_create \<and>
   fst (block_store_request (Some block_store_create) 100) \<and>
   (\<exists>bs'. snd (block_store_request (Some block_store_create) 100) = Some bs' \<and>
      block_store_wf bs' \<and> occupancy bs' 100 \<and> occupancy bs' 0 \<and> \<not> occupancy bs' 50 \<and>
      slot_content bs' 7 = slot_content block_store_create 7 \<and>
      \<not> fst (block_store_request (Some bs') 100) \<and>
      snd (block_store_request (Some bs') 100) = Some bs') \<and>
   \<not> fst (block_store_request (Some block_store_create) 0) \<and>
   snd (block_store_request (Some block_store_create) 0) = Some block_store_create \<and>
   \<not> fst (block_store_request (Some block_store_create) 500) \<and>
   snd (block_store_request (Some block_store_create) 500) = Some block_store_create"
proof -
  note first = request_sets_clear_bit_only [OF create_wf, of 100]
  have ok: "fst (block_store_request (Some block_store_create) 100)"
    using first occupancy_create [of 100] by simp
  with first obtain bs' where
    r: "snd (block_store_request (Some block_store_create) 100) = Some bs'"
    and wf': "block_store_wf bs'" and occ: "occupancy bs' 100"
    and others: "\<forall>j. j \<noteq> 100 \<longrightarrow> occupancy bs' j = occupancy block_store_create j"
    and slots: "\<forall>j. 0 < j \<longrightarrow> slot_content bs' j = slot_content block_store_create j"
    by blast
  have "occupancy bs' 0" "\<not> occupancy bs' 50"
    using others occupancy_create [of 0] occupancy_create [of 50] by simp_all
  moreover have "slot_content bs' 7 = slot_content block_store_create 7"
    using slots by simp
  moreover have "\<not> fst (block_store_request (Some bs') 100)"
    "snd (block_store_request (Some bs') 100) = Some bs'"
    using request_sets_clear_bit_only [OF wf', of 100] occ by simp_all
  ultimately have "\<exists>bs'. snd (block_store_request (Some block_store_create) 100) = Some bs' \<and>
      block_store_wf bs' \<and> occupancy bs' 100 \<and> occupancy bs' 0 \<and> \<not> occupancy bs' 50 \<and>
      slot_content bs' 7 = slot_content block_store_create 7 \<and>
      \<not> fst (block_store_request (Some bs') 100) \<and>
      snd (block_store_request (Some bs') 100) = Some bs'"
    using r wf' occ by blast
  then show ?thesis
    using ok create_wf request_sets_clear_bit_only [OF create_wf, of 0]
      request_sets_clear_bit_only [OF create_wf, of 500]
    by simp
qed

section \<open>Occupancy and content\<close>

lemma reset_bit_frame:
  assumes "block_store_wf bs" and "i < 2048"
  shows "block_store_wf (bs\<lparr>bmp := (bmp bs)[0 := bitmap_reset (bmp bs ! 0) i]\<rparr>)"
    and "occupancy (bs\<lparr>bmp := (bmp bs)[0 := bitmap_reset (bmp bs ! 0) i]\<rparr>) j
           \<longleftrightarrow> j \<noteq> i \<and> occupancy bs j"
    and "0 < j \<Longrightarrow> slot_content (bs\<lparr>bmp := (bmp bs)[0 := bitmap_reset (bmp bs ! 0) i]\<rparr>) j
           = slot_content bs j"
proof -
  have len: "length (bmp bs) = 256"
    using assms(1) by (simp add: block_store_wf_def)
  have d: "length (data (bmp bs ! 0)) = 256" and c: "bit_count (bmp bs ! 0) = 2048"
    using wf_slot [OF assms(1), of 0] by simp_all
  show "block_store_wf (bs\<lparr>bmp := (bmp bs)[0 := bitmap_reset (bmp bs ! 0) i]\<rparr>)"
    using assms(1) c d by (intro wf_update) (simp_all add: bitmap_reset_shape)
  have "i div 8 < length (data (bmp bs ! 0))"
    using assms(2) d by simp
  then show "occupancy (bs\<lparr>bmp := (bmp bs)[0 := bitmap_reset (bmp bs ! 0) i]\<rparr>) j
      \<longleftrightarrow> j \<noteq> i \<and> occupancy bs j"
    using len by (simp add: occupancy_def bitmap_test_reset)
  show "slot_content (bs\<lparr>bmp := (bmp bs)[0 := bitmap_reset (bmp bs ! 0) i]\<rparr>) j
      = slot_content bs j" if "0 < j"
    using that by (simp add: slot_content_def)
qed

lemma occupancy_of_content:
  "slot_content bs 0 = slot_content bs' 0 \<Longrightarrow> occupancy bs j = occupancy bs' j"
  by (simp add: slot_content_def occupancy_def bitmap_export_def bitmap_test_def)

lemma read_slot:
  assumes "block_store_wf bs" and "j < 256"
  shows "block_store_read (Some bs) j (Some (replicate 256 0)) = Inr (256, Some (slot_content bs j))"
  using wf_slot(1) [OF assms] assms(2)
  by (simp add: block_store_read_def slot_content_def bitmap_export_def)

lemma request_fresh:
  assumes "0 < i" and "i < 256"
  shows "block_store_request (Some block_store_create) i =
    (True, Some (block_store_create\<lparr>bmp := (bmp block_store_create)[0 := bitmap_set (bmp block_store_create ! 0) i]\<rparr>))"
  using assms occupancy_create [of i]
  by (simp add: block_store_request_def occupancy_def)

lemma write_zeros_occupancy:
  assumes "length (bmp bs) = 256" and "j < 2048"
  shows "\<not> occupancy (bs\<lparr>bmp := (bmp bs)[0 := bitmap_import 2048 (replicate 256 0)]\<rparr>) j"
  using assms by (simp add: occupancy_def bitmap_import_def bitmap_test_def)

text \<open>
  Claim C2, as the spec states it: for every device and every id below 256, \<open>write\<close>
  leaves every occupancy bit as it was and \<open>release\<close> leaves the content of every slot
  as it was. The code keeps the occupancy bits in the bitmap of slot 0, the free block
  map, so the bits are the first bytes of that slot's content. Releasing block 10 changes
  what \<open>read\<close> returns for slot 0; and after block 10 was requested, writing zeros to slot
  0 clears its bit, so that a second request of block 10 succeeds.
\<close>

theorem write_release_independence_counterexample:
  "block_store_read
     (block_store_release (snd (block_store_request (Some block_store_create) 10)) 10)
     0 (Some (replicate 256 0))
   \<noteq> block_store_read (snd (block_store_request (Some block_store_create) 10))
     0 (Some (replicate 256 0)) \<and>
   \<not> fst (block_store_request (snd (block_store_request (Some block_store_create) 10)) 10) \<and>
   fst (block_store_request
     (snd (block_store_write (snd (block_store_request (Some block_store_create) 10))
        0 (Some (replicate 256 0)))) 10)"
proof -
  define d where
    "d = block_store_create\<lparr>bmp := (bmp block_store_create)[0 := bitmap_set (bmp block_store_create ! 0) 10]\<rparr>"
  define r where "r = d\<lparr>bmp := (bmp d)[0 := bitmap_reset (bmp d ! 0) 10]\<rparr>"
  define z where "z = d\<lparr>bmp := (bmp d)[0 := bitmap_import 2048 (replicate 256 0)]\<rparr>"
  have req: "block_store_request (Some block_store_create) 10 = (True, Some d)"
    unfolding d_def by (rule request_fresh) simp_all
  have wf: "block_store_wf d" and occ: "occupancy d 10"
    using set_bit_frame(1) [OF create_wf, of 10] set_bit_frame(2) [OF create_wf, of 10 10]
    by (simp_all add: d_def)
  have len: "length (bmp d) = 256"
    using wf by (simp add: block_store_wf_def)
  have rel: "block_store_release (Some d) 10 = Some r"
    using occ by (simp add: block_store_release_def occupancy_def r_def)
  have wfr: "block_store_wf r" and nocc: "\<not> occupancy r 10"
    using reset_bit_frame(1) [OF wf, of 10] reset_bit_frame(2) [OF wf, of 10 10]
    by (simp_all add: r_def)
  have "slot_content r 0 \<noteq> slot_content d 0"
    using occupancy_of_content [of r d 10] occ nocc by auto
  then have 1: "block_store_read (Some r) 0 (Some (replicate 256 0))
      \<noteq> block_store_read (Some d) 0 (Some (replicate 256 0))"
    using read_slot [OF wf, of 0] read_slot [OF wfr, of 0] by simp
  have 2: "\<not> fst (block_store_request (Some d) 10)"
    using occ by (simp add: block_store_request_def occupancy_def)
  have wr: "block_store_write (Some d) 0 (Some (replicate 256 0)) = (256, Some z)"
    by (simp add: block_store_write_def z_def)
  have "\<not> occupancy z 10"
    unfolding z_def using len by (rule write_zeros_occupancy) simp
  then have 3: "fst (block_store_request (Some z) 10)"
    by (simp add: block_store_request_def occupancy_def)
  show ?thesis
    using 1 2 3 by (simp add: req rel wr)
qed

text \<open>
  Claim C2, amended: for every device and every id above 0 and below 256, \<open>write\<close> leaves
  every occupancy bit as it was; and for every id, \<open>release\<close> leaves the content of every
  slot other than slot 0 as it was.
\<close>

theorem write_release_frame:
  assumes "block_store_wf bs"
  shows "(0 < block_id \<and> block_id < 256 \<longrightarrow>
            (\<exists>bs'. block_store_write (Some bs) block_id (Some buf) = (256, Some bs') \<and>
                   (\<forall>j. occupancy bs' j = occupancy bs j))) \<and>
         (\<exists>bs'. block_store_release (Some bs) block_id = Some bs' \<and>
                (\<forall>j. 0 < j \<longrightarrow> slot_content bs' j = slot_content bs j))"
proof -
  have "block_store_write (Some bs) block_id (Some buf)
      = (256, Some (bs\<lparr>bmp := (bmp bs)[block_id := bitmap_import 2048 buf]\<rparr>))"
    and "occupancy (bs\<lparr>bmp := (bmp bs)[block_id := bitmap_import 2048 buf]\<rparr>) j = occupancy bs j"
    if "0 < block_id" "block_id < 256" for j
    using that by (simp_all add: block_store_write_def occupancy_def)
  moreover have "\<exists>bs'. block_store_release (Some bs) block_id = Some bs' \<and>
      (\<forall>j. 0 < j \<longrightarrow> slot_content bs' j = slot_content bs j)"
  proof (cases "block_id > 0 \<and> block_id < 256 \<and> bitmap_test (bmp bs ! 0) block_id")
    case True
    then have "block_id < 2048" by simp
    from reset_bit_frame(3) [OF assms this] True show ?thesis
      by (simp add: block_store_release_def)
  next
    case False
    then show ?thesis
      by (auto simp add: block_store_release_def)
  qed
  ultimately show ?thesis by blast
qed

theorem write_release_frame_witness:
  "block_store_wf block_store_create \<and> (0::nat) < 100 \<and> (100::nat) < 256 \<and>
   (\<exists>bs'. block_store_write (Some block_store_create) 100 (Some (replicate 256 126)) = (256, Some bs') \<and>
          (\<forall>j. occupancy bs' j = occupancy block_store_create j)) \<and>
   (\<exists>bs'. block_store_release (Some block_store_create) 100 = Some bs' \<and>
          (\<forall>j. 0 < j \<longrightarrow> slot_content bs' j = slot_content block_store_create j))"
  using write_release_frame [OF create_wf, of 100 "replicate 256 126"] create_wf
  by simp

section \<open>Counting and allocating\<close>

lemma used_loop_count:
  "i \<le> 256 \<Longrightarrow> used_loop bs i ub = ub + length (filter (occupancy bs) [i..<256])"
proof (induction bs i ub rule: used_loop.induct)
  case (1 bs i ub)
  show ?case
  proof (cases "i < 256")
    case True
    then have "[i..<256] = i # [Suc i..<256]"
      by (simp add: upt_conv_Cons)
    moreover have "occupancy bs i = bitmap_test (bmp bs ! 0) i"
      by (simp add: occupancy_def)
    ultimately show ?thesis
      using True 1 by (subst used_loop.simps) simp
  next
    case False
    with 1 show ?thesis
      by (subst used_loop.simps) simp
  qed
qed

lemma filter_upt_le: "length (filter P [1..<256]) \<le> 255"
  using length_filter_le [of P "[1..<256]"] by simp

lemma used_blocks_eq:
  "block_store_get_used_blocks (Some bs) = length (filter (occupancy bs) [1..<256])"
  using filter_upt_le [of "occupancy bs"]
  by (simp add: block_store_get_used_blocks_def used_loop_count Let_def)

lemma count_after_set:
  assumes "0 < i" and "i < 256" and "\<not> P i" and "\<And>j. Q j \<longleftrightarrow> j = i \<or> P j"
  shows "length (filter Q [1..<256]) = Suc (length (filter P [1..<256]))"
proof -
  have "{x. Q x} \<inter> set [1..<256] = insert i ({x. P x} \<inter> set [1..<256])"
    using assms by auto
  moreover have "i \<notin> {x. P x} \<inter> set [1..<256]"
    using assms(3) by simp
  ultimately have "card ({x. Q x} \<inter> set [1..<256]) = Suc (card ({x. P x} \<inter> set [1..<256]))"
    by simp
  then show ?thesis
    by (simp add: distinct_length_filter)
qed

lemma ffz_lowest:
  assumes "c < bit_count bm" and "\<not> bitmap_test bm c" and "\<And>j. j < c \<Longrightarrow> bitmap_test bm j"
  shows "ffz_scan bm 0 = c"
proof -
  let ?r = "ffz_scan bm 0"
  have "\<not> c < ?r"
    using ffz_scan_below [of 0 c bm] assms(2) by auto
  then have le: "?r \<le> c" by simp
  with assms(1) have "\<not> bitmap_test bm ?r"
    by (intro ffz_scan_clear) simp
  with assms(3) have "\<not> ?r < c" by auto
  with le show ?thesis by simp
qed

lemma ffz_all_set:
  assumes "n \<le> bit_count bm" and "\<And>j. j < n \<Longrightarrow> bitmap_test bm j"
  shows "n \<le> ffz_scan bm 0"
proof (rule ccontr)
  assume "\<not> n \<le> ffz_scan bm 0"
  then have lt: "ffz_scan bm 0 < n" by simp
  with assms(1) have "\<not> bitmap_test bm (ffz_scan bm 0)"
    by (intro ffz_scan_clear) simp
  with assms(2) [OF lt] show False by simp
qed

lemma allocate_result:
  assumes "block_store_wf bs" and "block_store_allocate (Some bs) = (i, dev')" and "i \<noteq> SIZE_MAX"
  shows "i < 256" and "i = ffz_scan (bmp bs ! 0) 0"
    and "dev' = Some (bs\<lparr>bmp := (bmp bs)[0 := bitmap_set (bmp bs ! 0) i]\<rparr>)"
    and "\<not> occupancy bs i" and "\<And>j. j < i \<Longrightarrow> occupancy bs j"
proof -
  let ?r = "ffz_scan (bmp bs ! 0) 0"
  have c: "bit_count (bmp bs ! 0) = 2048"
    using wf_slot(2) [OF assms(1), of 0] by simp
  from assms(2,3) have r: "?r \<noteq> 2048" "?r < 256" "i = ?r"
    and d: "dev' = Some (bs\<lparr>bmp := (bmp bs)[0 := bitmap_set (bmp bs ! 0) i]\<rparr>)"
    by (auto simp add: block_store_allocate_def bitmap_ffz_def Let_def c split: if_splits)
  show "i < 256" "i = ?r" using r by simp_all
  show "dev' = Some (bs\<lparr>bmp := (bmp bs)[0 := bitmap_set (bmp bs ! 0) i]\<rparr>)" by (rule d)
  have "\<not> bitmap_test (bmp bs ! 0) ?r"
    using r(2) c by (intro ffz_scan_clear) simp
  then show "\<not> occupancy bs i"
    by (simp add: occupancy_def r(3))
  show "occupancy bs j" if "j < i" for j
    using ffz_scan_below [of 0 j "bmp bs ! 0"] that by (simp add: occupancy_def r(3))
qed

lemma write_zeros_fresh:
  shows "block_store_write (Some block_store_create) 0 (Some (replicate 256 0))
     = (256, Some (block_store_create\<lparr>bmp := (bmp block_store_create)[0 := bitmap_import 2048 (replicate 256 0)]\<rparr>))"
  and "block_store_wf (block_store_create\<lparr>bmp := (bmp block_store_create)[0 := bitmap_import 2048 (replicate 256 0)]\<rparr>)"
  and "j < 2048 \<Longrightarrow>
    \<not> occupancy (block_store_create\<lparr>bmp := (bmp block_store_create)[0 := bitmap_import 2048 (replicate 256 0)]\<rparr>) j"
proof -
  have len: "length (bmp block_store_create) = 256"
    using create_wf by (simp add: block_store_wf_def)
  show "block_store_write (Some block_store_create) 0 (Some (replicate 256 0))
     = (256, Some (block_store_create\<lparr>bmp := (bmp block_store_create)[0 := bitmap_import 2048 (replicate 256 0)]\<rparr>))"
    by (simp add: block_store_write_def)
  show "block_store_wf (block_store_create\<lparr>bmp := (bmp block_store_create)[0 := bitmap_import 2048 (replicate 256 0)]\<rparr>)"
    using create_wf by (rule wf_update) (simp_all add: bitmap_import_def)
  show "\<not> occupancy (block_store_create\<lparr>bmp := (bmp block_store_create)[0 := bitmap_import 2048 (replicate 256 0)]\<rparr>) j"
    if "j < 2048"
    using len that by (rule write_zeros_occupancy)
qed

lemma allocate_lowest:
  assumes "block_store_wf bs" and "c < 256" and "\<not> occupancy bs c"
    and "\<And>j. j < c \<Longrightarrow> occupancy bs j"
  shows "block_store_allocate (Some bs)
    = (c, Some (bs\<lparr>bmp := (bmp bs)[0 := bitmap_set (bmp bs ! 0) c]\<rparr>))"
proof -
  have b: "bit_count (bmp bs ! 0) = 2048"
    using wf_slot(2) [OF assms(1), of 0] by simp
  have "ffz_scan (bmp bs ! 0) 0 = c"
    using assms(2-4) by (intro ffz_lowest) (simp_all add: b occupancy_def)
  with assms(2) show ?thesis
    by (simp add: block_store_allocate_def bitmap_ffz_def b SIZE_MAX_def)
qed

text \<open>
  Claim C10, as the spec states it: whenever \<open>allocate\<close> returns an id other than
  \<open>SIZE_MAX\<close>, no slot's content is changed and \<open>used_count\<close> grows by one. In the code
  the bit it sets is a bit of slot 0's content: on the fresh device \<open>allocate\<close> returns
  1, and \<open>read\<close> of slot 0 gives different bytes before and after the call. And on a device
  whose bit 0 is clear (the fresh device after 256 zero bytes were written to slot 0)
  \<open>allocate\<close> returns 0, a bit that \<open>used_count\<close> does not count: the count is 0 before
  and after.
\<close>

theorem allocate_content_counterexample:
  "fst (block_store_allocate (Some block_store_create)) \<noteq> SIZE_MAX \<and>
   block_store_read (snd (block_store_allocate (Some block_store_create))) 0 (Some (replicate 256 0))
   \<noteq> block_store_read (Some block_store_create) 0 (Some (replicate 256 0)) \<and>
   fst (block_store_allocate
     (snd (block_store_write (Some block_store_create) 0 (Some (replicate 256 0))))) = 0 \<and>
   block_store_get_used_blocks
     (snd (block_store_write (Some block_store_create) 0 (Some (replicate 256 0)))) = 0 \<and>
   block_store_get_used_blocks (snd (block_store_allocate
     (snd (block_store_write (Some block_store_create) 0 (Some (replicate 256 0)))))) = 0"
proof -
  define d where
    "d = block_store_create\<lparr>bmp := (bmp block_store_create)[0 := bitmap_set (bmp block_store_create ! 0) 1]\<rparr>"
  have a: "block_store_allocate (Some block_store_create) = (1, Some d)"
    unfolding d_def using create_wf occupancy_create [of 0] occupancy_create [of 1]
    by (intro allocate_lowest) simp_all
  have wf: "block_store_wf d" and occ: "occupancy d 1"
    using set_bit_frame(1) [OF create_wf, of 1] set_bit_frame(2) [OF create_wf, of 1 1]
    by (simp_all add: d_def)
  have "slot_content d 0 \<noteq> slot_content block_store_create 0"
    using occupancy_of_content [of d block_store_create 1] occ occupancy_create [of 1] by auto
  then have 1: "block_store_read (Some d) 0 (Some (replicate 256 0))
      \<noteq> block_store_read (Some block_store_create) 0 (Some (replicate 256 0))"
    using read_slot [OF wf, of 0] read_slot [OF create_wf, of 0] by simp
  define z where
    "z = block_store_create\<lparr>bmp := (bmp block_store_create)[0 := bitmap_import 2048 (replicate 256 0)]\<rparr>"
  define z' where "z' = z\<lparr>bmp := (bmp z)[0 := bitmap_set (bmp z ! 0) 0]\<rparr>"
  have w: "block_store_write (Some block_store_create) 0 (Some (replicate 256 0)) = (256, Some z)"
    unfolding z_def by (rule write_zeros_fresh(1))
  have wfz: "block_store_wf z"
    unfolding z_def by (rule write_zeros_fresh(2))
  have occz: "\<not> occupancy z j" if "j < 2048" for j
    unfolding z_def using that by (rule write_zeros_fresh(3))
  have az: "block_store_allocate (Some z) = (0, Some z')"
    unfolding z'_def using wfz occz [of 0] by (intro allocate_lowest) simp_all
  have occz': "occupancy z' j \<longleftrightarrow> j = 0" if "j < 2048" for j
    using set_bit_frame(2) [OF wfz, of 0 j] occz [OF that] by (simp add: z'_def)
  have "filter (occupancy z) [1..<256] = []" "filter (occupancy z') [1..<256] = []"
    using occz occz' by (auto simp add: filter_empty_conv)
  then have 2: "block_store_get_used_blocks (Some z) = 0" "block_store_get_used_blocks (Some z') = 0"
    by (simp_all add: used_blocks_eq)
  show ?thesis
    using 1 2 by (simp add: a w az SIZE_MAX_def)
qed

text \<open>
  Claim C10, amended: whenever \<open>allocate\<close> returns an id other than \<open>SIZE_MAX\<close>, the id
  is below 256, its occupancy bit was clear before the call and is set after it, every
  other occupancy bit is unchanged, the content of every slot other than slot 0 is
  unchanged, and when the id is not 0 \<open>used_count\<close> grows by exactly one.
\<close>

theorem allocate_effect:
  assumes "block_store_wf bs" and "block_store_allocate (Some bs) = (i, dev')" and "i \<noteq> SIZE_MAX"
  shows "\<exists>bs'. dev' = Some bs' \<and> i < 256 \<and> \<not> occupancy bs i \<and> occupancy bs' i \<and>
           (\<forall>j. j \<noteq> i \<longrightarrow> occupancy bs' j = occupancy bs j) \<and>
           (\<forall>j. 0 < j \<longrightarrow> slot_content bs' j = slot_content bs j) \<and>
           (0 < i \<longrightarrow> block_store_get_used_blocks (Some bs')
                        = block_store_get_used_blocks (Some bs) + 1)"
proof -
  let ?bs' = "bs\<lparr>bmp := (bmp bs)[0 := bitmap_set (bmp bs ! 0) i]\<rparr>"
  note r = allocate_result [OF assms]
  have i: "i < 2048" using r(1) by simp
  have occ: "occupancy ?bs' j \<longleftrightarrow> j = i \<or> occupancy bs j" for j
    by (rule set_bit_frame(2) [OF assms(1) i])
  have cont: "slot_content ?bs' j = slot_content bs j" if "0 < j" for j
    using that by (rule set_bit_frame(3) [OF assms(1) i])
  have "length (filter (occupancy ?bs') [1..<256]) = Suc (length (filter (occupancy bs) [1..<256]))"
    if "0 < i"
    using that r(1) r(4) occ by (rule count_after_set)
  then have "0 < i \<longrightarrow> block_store_get_used_blocks (Some ?bs')
      = block_store_get_used_blocks (Some bs) + 1"
    by (simp add: used_blocks_eq)
  with r(1,3,4) occ cont show ?thesis
    by auto
qed

theorem allocate_effect_witness:
  "block_store_wf block_store_create \<and>
   fst (block_store_allocate (Some block_store_create)) = 1 \<and>
   fst (block_store_allocate (Some block_store_create)) \<noteq> SIZE_MAX \<and>
   \<not> occupancy block_store_create 1 \<and>
   (\<exists>bs'. snd (block_store_allocate (Some block_store_create)) = Some bs' \<and>
      occupancy bs' 1 \<and>
      block_store_get_used_blocks (Some bs')
        = block_store_get_used_blocks (Some block_store_create) + 1)"
proof -
  have i: "fst (block_store_allocate (Some block_store_create)) = 1"
    using allocate_lowest [OF create_wf, of 1] occupancy_create [of 0] occupancy_create [of 1]
    by simp
  then have n: "fst (block_store_allocate (Some block_store_create)) \<noteq> SIZE_MAX"
    by (simp add: SIZE_MAX_def)
  show ?thesis
    using allocate_effect [OF create_wf prod.collapse [symmetric] n] create_wf n i
    by auto
qed

section \<open>Filling the device\<close>

lemma allocate_full:
  assumes "block_store_wf bs" and "\<And>j. j < 256 \<Longrightarrow> occupancy bs j"
  shows "block_store_allocate (Some bs) = (SIZE_MAX, Some bs)"
proof -
  have b: "bit_count (bmp bs ! 0) = 2048"
    using wf_slot(2) [OF assms(1), of 0] by simp
  have "256 \<le> ffz_scan (bmp bs ! 0) 0"
    using assms(2) by (intro ffz_all_set) (simp_all add: b occupancy_def)
  then show ?thesis
    by (simp add: block_store_allocate_def bitmap_ffz_def b SIZE_MAX_def Let_def)
qed

lemma allocate_n_run:
  assumes "block_store_wf bs" and "\<And>j. j < 256 \<Longrightarrow> occupancy bs j \<longleftrightarrow> j \<le> k"
    and "k + n \<le> 255"
  shows "\<exists>bs'. allocate_n n (Some bs) = ([Suc k..<Suc k + n], Some bs') \<and> block_store_wf bs' \<and>
           (\<forall>j<256. occupancy bs' j \<longleftrightarrow> j \<le> k + n)"
  using assms
proof (induction n arbitrary: bs k)
  case 0
  then show ?case by simp
next
  case (Suc n)
  let ?bs1 = "bs\<lparr>bmp := (bmp bs)[0 := bitmap_set (bmp bs ! 0) (Suc k)]\<rparr>"
  have k: "Suc k < 256" "Suc k < 2048"
    using Suc.prems(3) by simp_all
  have a: "block_store_allocate (Some bs) = (Suc k, Some ?bs1)"
    using Suc.prems(1) k(1)
  proof (rule allocate_lowest)
    show "\<not> occupancy bs (Suc k)"
      using Suc.prems(2) [of "Suc k"] k(1) by simp
    show "occupancy bs j" if "j < Suc k" for j
      using Suc.prems(2) [of j] that k(1) by simp
  qed
  have wf1: "block_store_wf ?bs1"
    by (rule set_bit_frame(1) [OF Suc.prems(1) k(2)])
  have occ1: "occupancy ?bs1 j \<longleftrightarrow> j \<le> Suc k" if "j < 256" for j
    using set_bit_frame(2) [OF Suc.prems(1) k(2), of j] Suc.prems(2) [OF that] by auto
  have "Suc k + n \<le> 255"
    using Suc.prems(3) by simp
  from Suc.IH [OF wf1 occ1 this] obtain bs' where
    r: "allocate_n n (Some ?bs1) = ([Suc (Suc k)..<Suc (Suc k) + n], Some bs')"
    and wf': "block_store_wf bs'" and occ': "\<forall>j<256. occupancy bs' j \<longleftrightarrow> j \<le> Suc k + n"
    by blast
  have "Suc k # [Suc (Suc k)..<Suc (Suc k) + n] = [Suc k..<Suc k + Suc n]"
    by (simp add: upt_conv_Cons)
  with a r wf' occ' show ?case
    by simp
qed

lemma allocate_n_add:
  "allocate_n (n + m) dev =
     (case allocate_n n dev of (xs, d) \<Rightarrow> (case allocate_n m d of (ys, d') \<Rightarrow> (xs @ ys, d')))"
  by (induction n arbitrary: dev) (auto split: prod.splits)

lemma allocate_n_fresh_255:
  "\<exists>bs'. allocate_n 255 (Some block_store_create) = ([1..<256], Some bs') \<and> block_store_wf bs' \<and>
     (\<forall>j<256. occupancy bs' j)"
proof -
  have "occupancy block_store_create j \<longleftrightarrow> j \<le> 0" if "j < 256" for j
    using occupancy_create [of j] that by simp
  from allocate_n_run [OF create_wf this, of 255] show ?thesis
    by simp
qed

text \<open>
  Claim C5. On the fresh device 255 calls of \<open>allocate\<close> in a row return 0, 1, ..., 254 and
  the next call returns \<open>SIZE_MAX\<close>, as the tests \<open>allocate_first\<close> and \<open>over_allocate\<close>
  assert. In the code \<open>block_store_create\<close> sets bit 0, so the first call returns 1, the
  255 calls return 1, 2, ..., 255, and the 256th returns \<open>SIZE_MAX\<close>.
\<close>

theorem allocate_sequence_on_fresh_device:
  "fst (block_store_allocate (Some block_store_create)) = 1 \<and>
   fst (allocate_n 256 (Some block_store_create)) = [1..<256] @ [SIZE_MAX]"
proof -
  have 1: "fst (block_store_allocate (Some block_store_create)) = 1"
    using allocate_lowest [OF create_wf, of 1] occupancy_create [of 0] occupancy_create [of 1]
    by simp
  obtain bs' where r: "allocate_n 255 (Some block_store_create) = ([1..<256], Some bs')"
    and wf': "block_store_wf bs'" and occ': "\<forall>j<256. occupancy bs' j"
    using allocate_n_fresh_255 by blast
  have "allocate_n 1 (Some bs') = ([SIZE_MAX], Some bs')"
    using allocate_full [OF wf'] occ' by simp
  then have "fst (allocate_n (255 + 1) (Some block_store_create)) = [1..<256] @ [SIZE_MAX]"
    by (simp only: allocate_n_add r prod.case fst_conv)
  with 1 show ?thesis by simp
qed

section \<open>The used count\<close>

text \<open>
  Claim C6, as the spec states it: \<open>used_count\<close> returns \<open>SIZE_MAX\<close> when the count of set
  bits among the ids 1 to 255 reaches 255. The code compares the count with 256, which it
  cannot reach: after 255 allocations on the fresh device every one of those bits is set
  and \<open>used_count\<close> returns 255.
\<close>

theorem used_count_full_counterexample:
  "block_store_get_used_blocks (snd (allocate_n 255 (Some block_store_create))) = 255 \<and>
   block_store_get_used_blocks (snd (allocate_n 255 (Some block_store_create))) \<noteq> SIZE_MAX"
proof -
  obtain bs' where r: "allocate_n 255 (Some block_store_create) = ([1..<256], Some bs')"
    and occ': "\<forall>j<256. occupancy bs' j"
    using allocate_n_fresh_255 by blast
  have "filter (occupancy bs') [1..<256] = [1..<256]"
    using occ' by (simp add: filter_id_conv)
  then have "block_store_get_used_blocks (Some bs') = 255"
    by (simp add: used_blocks_eq)
  then show ?thesis
    by (simp add: r SIZE_MAX_def)
qed

text \<open>
  Claim C6, amended: for every non-null device \<open>used_count\<close> returns the number of set
  occupancy bits among the ids 1 to 255, which is at most 255, and it returns \<open>SIZE_MAX\<close>
  exactly when the device is null.
\<close>

theorem used_count_value:
  "block_store_get_used_blocks (Some bs) = length (filter (occupancy bs) [1..<256]) \<and>
   block_store_get_used_blocks (Some bs) \<le> 255 \<and>
   (block_store_get_used_blocks dev = SIZE_MAX \<longleftrightarrow> dev = None)"
proof -
  have le: "block_store_get_used_blocks (Some b) \<le> 255" for b
    using filter_upt_le [of "occupancy b"] by (simp add: used_blocks_eq)
  have "block_store_get_used_blocks (Some b) \<noteq> SIZE_MAX" for b
  proof
    assume "block_store_get_used_blocks (Some b) = SIZE_MAX"
    with le [of b] have "SIZE_MAX \<le> 255" by simp
    then show False by (simp add: SIZE_MAX_def)
  qed
  moreover have "block_store_get_used_blocks None = SIZE_MAX"
    by (simp add: block_store_get_used_blocks_def)
  ultimately have "block_store_get_used_blocks dev = SIZE_MAX \<longleftrightarrow> dev = None"
    by (cases dev) simp_all
  then show ?thesis
    using filter_upt_le [of "occupancy bs"] by (simp add: used_blocks_eq)
qed

section \<open>The file image of a device\<close>

lemma serialize_loop_success:
  assumes "fst (serialize_loop env bs f i sz)" and "i \<le> 256"
  shows "serialize_loop env bs f i sz =
    (True, sz + 256 * (256 - i),
     f @ concat (map (\<lambda>j. take 256 (bitmap_export (bmp bs ! j))) [i..<256]))"
  using assms
proof (induction env bs f i sz rule: serialize_loop.induct)
  case (1 env bs f i sz)
  show ?case
  proof (cases "i < 256")
    case True
    with "1.prems"(1) have w: "env (Sys_write i)"
      by (subst (asm) serialize_loop.simps) (auto split: if_splits)
    have step: "serialize_loop env bs f i sz =
        serialize_loop env bs (f @ take 256 (bitmap_export (bmp bs ! i))) (Suc i) (sz + 256)"
      using True w by (subst serialize_loop.simps) simp
    have "[i..<256] = i # [Suc i..<256]"
      using True by (simp add: upt_conv_Cons)
    moreover have "sz + 256 + 256 * (256 - Suc i) = sz + 256 * (256 - i)"
      using True by simp
    ultimately show ?thesis
      using "1.IH" [OF True] True w "1.prems"(1) step by simp
  next
    case False
    with "1.prems"(2) show ?thesis
      by (subst serialize_loop.simps) simp
  qed
qed

lemma serialize_loop_total:
  assumes "\<And>j. j < 256 \<Longrightarrow> env (Sys_write j)"
  shows "fst (serialize_loop env bs f i sz)"
  using assms
proof (induction env bs f i sz rule: serialize_loop.induct)
  case (1 env bs f i sz)
  show ?case
  proof (cases "i < 256")
    case True
    with 1 show ?thesis
      by (subst serialize_loop.simps) simp
  next
    case False
    then show ?thesis
      by (subst serialize_loop.simps) simp
  qed
qed

lemma chunk_of_concat:
  assumes "\<And>x. x \<in> set xs \<Longrightarrow> length x = 256" and "i < length xs"
  shows "take 256 (drop (256 * i) (concat xs)) = xs ! i"
  using assms
proof (induction xs arbitrary: i)
  case Nil
  then show ?case by simp
next
  case (Cons x xs)
  have x: "length x = 256"
    using Cons.prems(1) by simp
  show ?case
  proof (cases i)
    case 0
    with x show ?thesis by simp
  next
    case (Suc k)
    with Cons.prems(2) have "k < length xs" by simp
    with Cons.IH [of k] Cons.prems(1) have "take 256 (drop (256 * k) (concat xs)) = xs ! k"
      by simp
    with Suc x show ?thesis by simp
  qed
qed

lemma image_of_wf:
  assumes "block_store_wf bs"
  shows "concat (map (\<lambda>j. take 256 (bitmap_export (bmp bs ! j))) [0..<256])
    = concat (map data (bmp bs))"
proof -
  have len: "length (bmp bs) = 256"
    using assms by (simp add: block_store_wf_def)
  have "map (\<lambda>j. take 256 (bitmap_export (bmp bs ! j))) [0..<256] = map (\<lambda>j. data (bmp bs ! j)) [0..<256]"
    using wf_slot(1) [OF assms] by (simp add: bitmap_export_def)
  also have "\<dots> = map data (map (\<lambda>j. bmp bs ! j) [0..<length (bmp bs)])"
    by (simp add: len)
  also have "\<dots> = map data (bmp bs)"
    by (simp only: map_nth)
  finally show ?thesis by simp
qed

lemma import_of_data:
  assumes "bit_count b = 2048" and "length (data b) = 256"
  shows "bitmap_import 2048 (data b) = b"
  using assms by (simp add: bitmap_import_def)

lemma deserialize_loop_image:
  assumes "block_store_wf bs" and "f = concat (map data (bmp bs))"
    and "length (bmp cur) = 256" and "i \<le> 256" and "n = 256 - i"
  shows "deserialize_loop env stack f i (256 * i) cur =
    (if \<forall>j. i \<le> j \<and> j < 256 \<longrightarrow> env (Sys_read j)
     then Some (cur\<lparr>bmp := take i (bmp cur) @ drop i (bmp bs)\<rparr>) else None)"
  using assms(3-5)
proof (induction n arbitrary: i cur)
  case 0
  then have i: "i = 256" by simp
  have len: "length (bmp bs) = 256"
    using assms(1) by (simp add: block_store_wf_def)
  show ?case
    using 0 len by (subst deserialize_loop.simps) (simp add: i)
next
  case (Suc n)
  then have i: "i < 256" by simp
  have len: "length (bmp bs) = 256"
    using assms(1) by (simp add: block_store_wf_def)
  have slot: "bit_count (bmp bs ! i) = 2048" "length (data (bmp bs ! i)) = 256"
    using wf_slot [OF assms(1) i] by simp_all
  have "take 256 (drop (256 * i) f) = map data (bmp bs) ! i"
    unfolding assms(2) using assms(1) i len
    by (intro chunk_of_concat) (auto simp add: block_store_wf_def list_all_iff)
  then have chunk: "take 256 (drop (256 * i) f) = data (bmp bs ! i)"
    using i len by simp
  let ?cur' = "cur\<lparr>bmp := (bmp cur)[i := bmp bs ! i]\<rparr>"
  have w: "block_store_write (Some cur) i (Some (data (bmp bs ! i))) = (256, Some ?cur')"
    using i by (simp add: block_store_write_def import_of_data [OF slot])
  show ?case
  proof (cases "env (Sys_read i)")
    case False
    then have "deserialize_loop env stack f i (256 * i) cur = None"
      using i by (subst deserialize_loop.simps) simp
    moreover have "\<not> (\<forall>j. i \<le> j \<and> j < 256 \<longrightarrow> env (Sys_read j))"
      using False i by auto
    ultimately show ?thesis by simp
  next
    case True
    have step: "deserialize_loop env stack f i (256 * i) cur =
        deserialize_loop env stack f (Suc i) (256 * Suc i) ?cur'"
      using i True by (subst deserialize_loop.simps) (simp add: chunk slot(2) w add.commute)
    have "length (bmp ?cur') = 256" "Suc i \<le> 256" "n = 256 - Suc i"
      using Suc.prems i by simp_all
    from Suc.IH [OF this] have ih: "deserialize_loop env stack f (Suc i) (256 * Suc i) ?cur' =
        (if \<forall>j. Suc i \<le> j \<and> j < 256 \<longrightarrow> env (Sys_read j)
         then Some (?cur'\<lparr>bmp := take (Suc i) (bmp ?cur') @ drop (Suc i) (bmp bs)\<rparr>) else None)" .
    have "take (Suc i) (bmp ?cur') @ drop (Suc i) (bmp bs) = take i (bmp cur) @ drop i (bmp bs)"
      using i len Suc.prems(1)
      by (simp add: take_Suc_conv_app_nth Cons_nth_drop_Suc)
    moreover have "(\<forall>j. i \<le> j \<and> j < 256 \<longrightarrow> env (Sys_read j))
        \<longleftrightarrow> (\<forall>j. Suc i \<le> j \<and> j < 256 \<longrightarrow> env (Sys_read j))"
    proof
      assume "\<forall>j. i \<le> j \<and> j < 256 \<longrightarrow> env (Sys_read j)"
      then show "\<forall>j. Suc i \<le> j \<and> j < 256 \<longrightarrow> env (Sys_read j)" by simp
    next
      assume a: "\<forall>j. Suc i \<le> j \<and> j < 256 \<longrightarrow> env (Sys_read j)"
      show "\<forall>j. i \<le> j \<and> j < 256 \<longrightarrow> env (Sys_read j)"
      proof (intro allI impI)
        fix j assume j: "i \<le> j \<and> j < 256"
        show "env (Sys_read j)"
        proof (cases "j = i")
          case True
          with \<open>env (Sys_read i)\<close> show ?thesis by simp
        next
          case False
          with j have "Suc i \<le> j \<and> j < 256" by simp
          with a show ?thesis by blast
        qed
      qed
    qed
    ultimately show ?thesis
      using step ih by simp
  qed
qed


lemma serialize_result:
  assumes "block_store_wf bs" and "block_store_serialize env (Some bs) (Some name) fs = (n, fs')"
    and "n \<noteq> 0"
  shows "n = 65536" and "fs' name = Some (concat (map data (bmp bs)))"
proof -
  obtain ok sz f where l: "serialize_loop env bs [] 0 0 = (ok, sz, f)"
    by (cases "serialize_loop env bs [] 0 0")
  from assms(2,3) have ok: "ok" and n: "n = sz" and fs': "fs' = (fs(name \<mapsto> [])) (name \<mapsto> f)"
    by (auto simp add: block_store_serialize_def l Let_def split: if_splits)
  from ok l have "fst (serialize_loop env bs [] 0 0)" by simp
  from serialize_loop_success [OF this] l
  have "sz = 65536" and "f = concat (map (\<lambda>j. take 256 (bitmap_export (bmp bs ! j))) [0..<256])"
    by simp_all
  then show "n = 65536" and "fs' name = Some (concat (map data (bmp bs)))"
    using n fs' image_of_wf [OF assms(1)] by simp_all
qed

lemma serialize_no_failure:
  "fst (block_store_serialize no_failure (Some bs) (Some name) fs) \<noteq> 0"
proof -
  have "fst (serialize_loop no_failure bs [] 0 0)"
    by (rule serialize_loop_total) (simp add: no_failure_def)
  from serialize_loop_success [OF this]
  show ?thesis
    by (simp add: block_store_serialize_def no_failure_def Let_def)
qed

lemma deserialize_of_image:
  assumes "block_store_wf bs" and "fs name = Some (concat (map data (bmp bs)))"
  shows "block_store_deserialize env stack (Some name) fs =
    (if env (Sys_open 0) \<and> (\<forall>j<256. env (Sys_read j)) \<and> env (Sys_close 0)
     then Some bs else None)"
proof -
  have len: "length (bmp bs) = 256"
    using assms(1) by (simp add: block_store_wf_def)
  have "length (bmp block_store_create) = 256"
    using create_wf by (simp add: block_store_wf_def)
  from deserialize_loop_image [OF assms(1) refl this, of 0 256 env stack]
  have "deserialize_loop env stack (concat (map data (bmp bs))) 0 0 block_store_create =
      (if \<forall>j<256. env (Sys_read j) then Some bs else None)"
    by simp
  then show ?thesis
    by (simp add: block_store_deserialize_def assms(2))
qed

text \<open>
  Claim C4, as the spec states it: the device that \<open>deserialize\<close> builds from a serialized
  image has the occupancy bits of a fresh device, whatever was allocated. The image holds
  slot 0, and slot 0 is the free block map: with block 10 requested before \<open>serialize\<close>,
  \<open>deserialize\<close> returns the very device that was serialized, and a request of block 10
  fails on it (the test \<open>valid_deserialize\<close> asserts this), while it succeeds on a fresh
  device.
\<close>

theorem deserialize_occupancy_counterexample:
  "block_store_deserialize no_failure zero_stack (Some ''test.bs'')
     (snd (block_store_serialize no_failure
        (snd (block_store_request (Some block_store_create) 10)) (Some ''test.bs'') Map.empty))
   = snd (block_store_request (Some block_store_create) 10) \<and>
   \<not> fst (block_store_request (snd (block_store_request (Some block_store_create) 10)) 10) \<and>
   fst (block_store_request (Some block_store_create) 10)"
proof -
  define d where
    "d = block_store_create\<lparr>bmp := (bmp block_store_create)[0 := bitmap_set (bmp block_store_create ! 0) 10]\<rparr>"
  have req: "block_store_request (Some block_store_create) 10 = (True, Some d)"
    unfolding d_def by (rule request_fresh) simp_all
  have wf: "block_store_wf d" and occ: "occupancy d 10"
    using set_bit_frame(1) [OF create_wf, of 10] set_bit_frame(2) [OF create_wf, of 10 10]
    by (simp_all add: d_def)
  obtain n fs' where s: "block_store_serialize no_failure (Some d) (Some ''test.bs'') Map.empty = (n, fs')"
    by (cases "block_store_serialize no_failure (Some d) (Some ''test.bs'') Map.empty")
  with serialize_no_failure [of d "''test.bs''" Map.empty] have "n \<noteq> 0" by simp
  from serialize_result(2) [OF wf s this]
  have "block_store_deserialize no_failure zero_stack (Some ''test.bs'') fs' = Some d"
    by (simp add: deserialize_of_image [OF wf] no_failure_def)
  moreover have "\<not> fst (block_store_request (Some d) 10)"
    using occ by (simp add: block_store_request_def occupancy_def)
  ultimately show ?thesis
    by (simp add: req s)
qed

text \<open>
  Claim C4, amended: for every device and every file image that \<open>serialize\<close> produced from
  it (a call that returned a byte count other than 0, which is then 65536), a successful
  \<open>deserialize\<close> of that file yields a device equal to the serialized one: the same
  occupancy bits, whatever was allocated, and the same content in every slot. When no
  system call fails \<open>deserialize\<close> is successful.
\<close>

theorem serialize_deserialize_roundtrip:
  assumes "block_store_wf bs" and "block_store_serialize env (Some bs) (Some name) fs = (n, fs')"
    and "n \<noteq> 0"
  shows "n = 65536 \<and>
         (block_store_deserialize env' stack (Some name) fs' = None \<or>
          block_store_deserialize env' stack (Some name) fs' = Some bs) \<and>
         block_store_deserialize no_failure stack (Some name) fs' = Some bs"
  using serialize_result [OF assms]
  by (simp add: deserialize_of_image [OF assms(1)] no_failure_def)

theorem serialize_deserialize_roundtrip_witness:
  "block_store_wf block_store_create \<and>
   fst (block_store_serialize no_failure (Some block_store_create) (Some ''test.bs'') Map.empty) \<noteq> 0 \<and>
   fst (block_store_serialize no_failure (Some block_store_create) (Some ''test.bs'') Map.empty) = 65536 \<and>
   block_store_deserialize no_failure zero_stack (Some ''test.bs'')
     (snd (block_store_serialize no_failure (Some block_store_create) (Some ''test.bs'') Map.empty))
   = Some block_store_create"
  using serialize_deserialize_roundtrip [OF create_wf prod.collapse [symmetric]
      serialize_no_failure [of block_store_create "''test.bs''" Map.empty],
      of no_failure zero_stack]
    create_wf serialize_no_failure [of block_store_create "''test.bs''" Map.empty]
  by simp

section \<open>The reserved bit\<close>

text \<open>
  Claim C3. In every device state reachable from \<open>create\<close> by calls of \<open>allocate\<close>,
  \<open>request\<close>, \<open>release\<close>, \<open>read\<close> and \<open>write\<close>, occupancy bit 0 is set. The comment in
  \<open>block_store_create\<close> says the same (always in use, always set), and \<open>request\<close> and
  \<open>release\<close> refuse id 0. \<open>write\<close> does not: one \<open>write\<close> of 256 zero bytes to slot 0 of
  the fresh device returns 256 and leaves a device whose bit 0 is clear, on which
  \<open>allocate\<close> hands out block 0.
\<close>

theorem write_to_slot_0_clears_reserved_bit:
  "occupancy block_store_create 0 \<and>
   fst (block_store_write (Some block_store_create) 0 (Some (replicate 256 0))) = 256 \<and>
   (\<exists>bs. run_operations [Write 0 (replicate 256 0)] = Some bs \<and> \<not> occupancy bs 0) \<and>
   fst (block_store_allocate (run_operations [Write 0 (replicate 256 0)])) = 0"
proof -
  define z where
    "z = block_store_create\<lparr>bmp := (bmp block_store_create)[0 := bitmap_import 2048 (replicate 256 0)]\<rparr>"
  have w: "block_store_write (Some block_store_create) 0 (Some (replicate 256 0)) = (256, Some z)"
    unfolding z_def by (rule write_zeros_fresh(1))
  have wfz: "block_store_wf z"
    unfolding z_def by (rule write_zeros_fresh(2))
  have occz: "\<not> occupancy z 0"
    unfolding z_def by (rule write_zeros_fresh(3)) simp
  have run: "run_operations [Write 0 (replicate 256 0)] = Some z"
    by (simp add: run_operations_def w)
  have "block_store_allocate (Some z)
      = (0, Some (z\<lparr>bmp := (bmp z)[0 := bitmap_set (bmp z ! 0) 0]\<rparr>))"
    using wfz _ occz by (rule allocate_lowest) simp_all
  then show ?thesis
    using occupancy_create [of 0] occz by (simp add: run w)
qed

text \<open>
  Every other call keeps the bit: a run of calls that keep the caller's contract and do
  not write slot 0 ends in a well-formed device whose bit 0 is set.
\<close>

lemma apply_operation_keeps_reserved_bit:
  assumes "block_store_wf bs" and "occupancy bs 0"
    and "valid_operation op" and "\<not> writes_map op"
  shows "\<exists>bs'. apply_operation (Some bs) op = Some bs' \<and> block_store_wf bs' \<and> occupancy bs' 0"
proof (cases op)
  case Allocate
  obtain i dev' where a: "block_store_allocate (Some bs) = (i, dev')"
    by (cases "block_store_allocate (Some bs)")
  show ?thesis
  proof (cases "i = SIZE_MAX")
    case True
    with a have "dev' = Some bs"
      by (auto simp add: block_store_allocate_def Let_def split: if_splits)
    with assms(1,2) a Allocate show ?thesis by simp
  next
    case False
    note r = allocate_result [OF assms(1) a False]
    have i: "i < 2048" using r(1) by simp
    show ?thesis
      using set_bit_frame(1) [OF assms(1) i] set_bit_frame(2) [OF assms(1) i, of 0] assms(2)
      by (simp add: Allocate a r(3))
  qed
next
  case (Request block_id)
  show ?thesis
  proof (cases "block_id > 0 \<and> block_id < 256 \<and> \<not> bitmap_test (bmp bs ! 0) block_id")
    case True
    then have i: "block_id < 2048" by simp
    show ?thesis
      using set_bit_frame(1) [OF assms(1) i] set_bit_frame(2) [OF assms(1) i, of 0] assms(2) True
      by (simp add: Request block_store_request_def)
  next
    case False
    with assms(1,2) show ?thesis
      by (auto simp add: Request block_store_request_def)
  qed
next
  case (Release block_id)
  show ?thesis
  proof (cases "block_id > 0 \<and> block_id < 256 \<and> bitmap_test (bmp bs ! 0) block_id")
    case True
    then have i: "block_id < 2048" by simp
    show ?thesis
      using reset_bit_frame(1) [OF assms(1) i] reset_bit_frame(2) [OF assms(1) i, of 0] assms(2) True
      by (simp add: Release block_store_release_def)
  next
    case False
    with assms(1,2) show ?thesis
      by (auto simp add: Release block_store_release_def)
  qed
next
  case (Read block_id buffer)
  with assms(1,2) show ?thesis by simp
next
  case (Write block_id buffer)
  with assms(3,4) have b: "length buffer = 256" "0 < block_id" by simp_all
  show ?thesis
  proof (cases "block_id < 256")
    case True
    have "block_store_wf (bs\<lparr>bmp := (bmp bs)[block_id := bitmap_import 2048 buffer]\<rparr>)"
      using assms(1) by (rule wf_update) (simp_all add: bitmap_import_def b(1))
    moreover have "occupancy (bs\<lparr>bmp := (bmp bs)[block_id := bitmap_import 2048 buffer]\<rparr>) 0"
      using assms(2) b(2) by (simp add: occupancy_def)
    ultimately show ?thesis
      using True by (simp add: Write block_store_write_def)
  next
    case False
    with assms(1,2) show ?thesis
      by (simp add: Write block_store_write_def)
  qed
qed

lemma reserved_bit_invariant:
  assumes "\<And>op. op \<in> set ops \<Longrightarrow> valid_operation op \<and> \<not> writes_map op"
  shows "\<exists>bs. run_operations ops = Some bs \<and> block_store_wf bs \<and> occupancy bs 0"
  using assms
proof (induction ops rule: rev_induct)
  case Nil
  then show ?case
    using create_wf occupancy_create [of 0] by (simp add: run_operations_def)
next
  case (snoc op ops)
  then obtain bs where bs: "run_operations ops = Some bs" "block_store_wf bs" "occupancy bs 0"
    by auto
  have "valid_operation op" "\<not> writes_map op"
    using snoc.prems [of op] by simp_all
  from apply_operation_keeps_reserved_bit [OF bs(2,3) this] bs(1) show ?case
    by (simp add: run_operations_def)
qed

end
